theory Spec2Isabelle
  imports Complex_Main
begin

section \<open>The date functions of src/04-date-tasks.js\<close>

text \<open>
  The five functions of the module work on JavaScript Date values and Numbers. A Date is
  modelled by its time value: the integral number of milliseconds since
  1970-01-01T00:00:00Z, of magnitude at most 8.64e15. (A Date whose time value is NaN, an
  Invalid Date, is not an instant in time and is outside the model.) A Number that holds an
  integer is an \<open>int\<close>; where the source divides, the quotient is a \<open>real\<close>.

  The accessors \<open>getFullYear\<close>, \<open>getHours\<close> and \<open>getMinutes\<close> and the
  constructor \<open>Date.UTC\<close> belong to the language, not to the module. They follow the
  algorithms of the ECMAScript specification (section "Date Objects"). The local time zone
  is the host's: it is the parameter \<open>tza\<close>, the offset in milliseconds of local time
  from UTC at a given time value (\<open>LocalTZA(t, true)\<close>).
\<close>

subsection \<open>Numbers\<close>

text \<open>
  The remainder operator \<open>%\<close> of the language: the result takes the sign of the dividend.
  Every divisor in the module is a non-zero literal.
\<close>

definition number_rem :: "int \<Rightarrow> int \<Rightarrow> int" where
  "number_rem n d = sgn n * (\<bar>n\<bar> mod \<bar>d\<bar>)"

text \<open>\<open>Math.trunc\<close>: the integral part of a number, rounding toward zero.\<close>

definition Math_trunc :: "real \<Rightarrow> int" where
  "Math_trunc x = (if 0 \<le> x then \<lfloor>x\<rfloor> else \<lceil>x\<rceil>)"

text \<open>
  A Number is a double. Every integer of magnitude up to \<open>2^53 = 9007199254740992\<close> is
  a double; from there to \<open>2^54\<close> only the even integers are, and an odd result is
  rounded to the neighbour that is a multiple of 4 (round to nearest, ties to even). The
  integers the module computes have magnitude below \<open>2^54\<close>: the largest is the
  difference of two time values, at most 1.728e16.
\<close>

definition to_double :: "int \<Rightarrow> int" where
  "to_double x =
     (if \<bar>x\<bar> \<le> 9007199254740992 \<or> even x then x
      else if 4 dvd (x - 1) then x - 1
      else x + 1)"

definition number_sub :: "int \<Rightarrow> int \<Rightarrow> int" where
  "number_sub a b = to_double (a - b)"

definition number_mul :: "int \<Rightarrow> int \<Rightarrow> int" where
  "number_mul a b = to_double (a * b)"

text \<open>
  \<open>Number.prototype.toString\<close> on an integer (of magnitude below 1e21): the decimal
  digits, after a minus sign when it is negative.
\<close>

definition digit_char :: "nat \<Rightarrow> char" where
  "digit_char n = ''0123456789'' ! n"

fun digits :: "nat \<Rightarrow> string" where
  "digits n = (if n < 10 then [digit_char n] else digits (n div 10) @ [digit_char (n mod 10)])"

declare digits.simps [simp del]

definition Number_toString :: "int \<Rightarrow> string" where
  "Number_toString x = (if x < 0 then CHR ''-'' # digits (nat (- x)) else digits (nat x))"

text \<open>
  \<open>String.prototype.padStart(maxLength, fillString)\<close>: a string that is long enough, or
  an empty filler, leaves the string as it is; otherwise the filler is repeated and cut to
  the missing length, and put in front.
\<close>

definition padStart :: "nat \<Rightarrow> string \<Rightarrow> string \<Rightarrow> string" where
  "padStart maxLength fillString s =
     (if maxLength \<le> length s \<or> fillString = [] then s
      else take (maxLength - length s) (concat (replicate (maxLength - length s) fillString)) @ s)"

subsection \<open>Time values and the calendar\<close>

type_synonym time_value = int

definition valid_time :: "time_value \<Rightarrow> bool" where
  "valid_time t \<longleftrightarrow> \<bar>t\<bar> \<le> 8640000000000000"

definition msPerDay :: int where "msPerDay = 86400000"
definition msPerHour :: int where "msPerHour = 3600000"
definition msPerMinute :: int where "msPerMinute = 60000"
definition msPerSecond :: int where "msPerSecond = 1000"

definition Day :: "time_value \<Rightarrow> int" where
  "Day t = t div msPerDay"

definition DayFromYear :: "int \<Rightarrow> int" where
  "DayFromYear y =
     365 * (y - 1970) + (y - 1969) div 4 - (y - 1901) div 100 + (y - 1601) div 400"

definition TimeFromYear :: "int \<Rightarrow> time_value" where
  "TimeFromYear y = msPerDay * DayFromYear y"

text \<open>
  \<open>YearFromTime(t)\<close> is the largest year \<open>y\<close> with \<open>TimeFromYear(y) \<le> t\<close>. It is
  computed from an estimate over the 400-year cycle of 146097 days, which is off by at most
  one year, and one step of adjustment (lemma \<open>YearFromTime_largest\<close> below).
\<close>

definition YearFromDay :: "int \<Rightarrow> int" where
  "YearFromDay d =
     (let e = 1970 + (400 * d) div 146097
      in if d < DayFromYear e then e - 1
         else if DayFromYear (e + 1) \<le> d then e + 1
         else e)"

definition YearFromTime :: "time_value \<Rightarrow> int" where
  "YearFromTime t = YearFromDay (Day t)"

definition HourFromTime :: "time_value \<Rightarrow> int" where
  "HourFromTime t = (t div msPerHour) mod 24"

definition MinFromTime :: "time_value \<Rightarrow> int" where
  "MinFromTime t = (t div msPerMinute) mod 60"

definition LocalTime :: "(time_value \<Rightarrow> int) \<Rightarrow> time_value \<Rightarrow> time_value" where
  "LocalTime tza t = t + tza t"

definition getFullYear :: "(time_value \<Rightarrow> int) \<Rightarrow> time_value \<Rightarrow> int" where
  "getFullYear tza t = YearFromTime (LocalTime tza t)"

definition getHours :: "(time_value \<Rightarrow> int) \<Rightarrow> time_value \<Rightarrow> int" where
  "getHours tza t = HourFromTime (LocalTime tza t)"

definition getMinutes :: "(time_value \<Rightarrow> int) \<Rightarrow> time_value \<Rightarrow> int" where
  "getMinutes tza t = MinFromTime (LocalTime tza t)"

text \<open>
  \<open>Date.UTC(year, month, date, hours, minutes)\<close> with integral arguments: \<open>MakeDay\<close>,
  \<open>MakeTime\<close> and \<open>MakeDate\<close>. A year from 0 to 99 stands for 1900 + year. Months
  count from 0.
\<close>

definition DaysInYear :: "int \<Rightarrow> int" where
  "DaysInYear y =
     (if y mod 4 \<noteq> 0 then 365
      else if y mod 100 \<noteq> 0 then 366
      else if y mod 400 \<noteq> 0 then 365
      else 366)"

definition InLeapYear :: "int \<Rightarrow> bool" where
  "InLeapYear y \<longleftrightarrow> DaysInYear y = 366"

definition DaysBeforeMonth :: "bool \<Rightarrow> int \<Rightarrow> int" where
  "DaysBeforeMonth leap m =
     (if m = 0 then 0
      else if m = 1 then 31
      else [59, 90, 120, 151, 181, 212, 243, 273, 304, 334] ! nat (m - 2)
           + (if leap then 1 else 0))"

definition MakeDay :: "int \<Rightarrow> int \<Rightarrow> int \<Rightarrow> int" where
  "MakeDay year month date =
     (let ym = year + month div 12; mn = month mod 12
      in DayFromYear ym + DaysBeforeMonth (InLeapYear ym) mn + date - 1)"

definition MakeTime :: "int \<Rightarrow> int \<Rightarrow> int \<Rightarrow> int \<Rightarrow> int" where
  "MakeTime hour mins sec ms = hour * msPerHour + mins * msPerMinute + sec * msPerSecond + ms"

definition MakeDate :: "int \<Rightarrow> int \<Rightarrow> time_value" where
  "MakeDate day time = day * msPerDay + time"

definition MakeFullYear :: "int \<Rightarrow> int" where
  "MakeFullYear year = (if 0 \<le> year \<and> year \<le> 99 then 1900 + year else year)"

definition Date_UTC :: "int \<Rightarrow> int \<Rightarrow> int \<Rightarrow> int \<Rightarrow> int \<Rightarrow> time_value" where
  "Date_UTC year month date hours minutes =
     MakeDate (MakeDay (MakeFullYear year) month date) (MakeTime hours minutes 0 0)"

text \<open>Two hosts: one whose local time is UTC, one whose local time is UTC+03:00.\<close>

definition tza_utc :: "time_value \<Rightarrow> int" where
  "tza_utc t = 0"

definition tza_plus3 :: "time_value \<Rightarrow> int" where
  "tza_plus3 t = 3 * msPerHour"

subsection \<open>parseDataFromRfc2822 and parseDataFromIso8601\<close>

text \<open>
  \<^verbatim>\<open>
  function parseDataFromRfc2822(value) { return Date.parse(value); }
  function parseDataFromIso8601(value) { return Date.parse(value); }
  \<close>
  Both are the host's \<open>Date.parse\<close>, a parameter here: which strings it accepts beyond
  the ISO format is left to the implementation by the language specification. Its result
  is a time value, or NaN (\<open>None\<close>).
\<close>

definition parseDataFromRfc2822 :: "(string \<Rightarrow> time_value option) \<Rightarrow> string \<Rightarrow> time_value option" where
  "parseDataFromRfc2822 Date_parse v = Date_parse v"

definition parseDataFromIso8601 :: "(string \<Rightarrow> time_value option) \<Rightarrow> string \<Rightarrow> time_value option" where
  "parseDataFromIso8601 Date_parse v = Date_parse v"

subsection \<open>isLeapYear\<close>

text \<open>
  \<^verbatim>\<open>
  function isLeapYear(date) {
    if (date.getFullYear() % 4 > 0) return false;
    if (date.getFullYear() % 100 === 0) {
      if (date.getFullYear() % 400 === 0) return true;
      return false;
    } return true;
  }
  \<close>
\<close>

definition isLeapYear :: "(time_value \<Rightarrow> int) \<Rightarrow> time_value \<Rightarrow> bool" where
  "isLeapYear tza date =
     (if number_rem (getFullYear tza date) 4 > 0 then False
      else if number_rem (getFullYear tza date) 100 = 0 then
        (if number_rem (getFullYear tza date) 400 = 0 then True else False)
      else True)"

text \<open>The Gregorian rule as the specification writes it, with the language's \<open>%\<close>.\<close>

definition gregorian_rule :: "int \<Rightarrow> bool" where
  "gregorian_rule Y \<longleftrightarrow>
     number_rem Y 4 = 0 \<and> (number_rem Y 100 \<noteq> 0 \<or> number_rem Y 400 = 0)"


subsection \<open>timeSpanToString\<close>

text \<open>
  \<^verbatim>\<open>
  function timeSpanToString(startDate, endDate) {
    const millisecondQuantity = endDate - startDate;
    const hour = Math.trunc(millisecondQuantity / 3600000);
    const minutes = Math.trunc((millisecondQuantity % 3600000) / 60000);
    const seconds = Math.trunc(((millisecondQuantity % 3600000) % 60000) / 1000);
    const millisecond = millisecondQuantity - (3600000 * hour) - (minutes * 60000) - (seconds * 1000);
    return `${hour.toString().padStart(2, 0)}:${minutes.toString().padStart(2, 0)}:${seconds.toString().padStart(2, 0)}.${millisecond.toString().padStart(3, 0)}`;
  }
  \<close>
  The four constants are \<open>timeSpan_fields\<close>, the template string is
  \<open>timeSpan_format\<close>. The filler \<open>0\<close> of \<open>padStart\<close> is a Number, which the call
  converts to the string \<open>"0"\<close>. The quotients are reals here and doubles in the source;
  the dividends are integers below \<open>2^54\<close> (even ones from \<open>2^53\<close> on) and the divisors
  at most 3600000, so that the rounding of the double quotient never reaches the next
  integer and \<open>Math.trunc\<close> gives the same integral part.
\<close>

definition timeSpan_fields :: "time_value \<Rightarrow> time_value \<Rightarrow> int \<times> int \<times> int \<times> int" where
  "timeSpan_fields startDate endDate =
     (let millisecondQuantity = number_sub endDate startDate;
          hour = Math_trunc (real_of_int millisecondQuantity / 3600000);
          minutes = Math_trunc (real_of_int (number_rem millisecondQuantity 3600000) / 60000);
          seconds = Math_trunc
            (real_of_int (number_rem (number_rem millisecondQuantity 3600000) 60000) / 1000);
          millisecond =
            number_sub
              (number_sub
                (number_sub millisecondQuantity (number_mul 3600000 hour))
                (number_mul minutes 60000))
              (number_mul seconds 1000)
      in (hour, minutes, seconds, millisecond))"

definition timeSpan_format :: "int \<times> int \<times> int \<times> int \<Rightarrow> string" where
  "timeSpan_format f =
     (case f of (hour, minutes, seconds, millisecond) \<Rightarrow>
        padStart 2 ''0'' (Number_toString hour) @ '':''
        @ padStart 2 ''0'' (Number_toString minutes) @ '':''
        @ padStart 2 ''0'' (Number_toString seconds) @ ''.''
        @ padStart 3 ''0'' (Number_toString millisecond))"

definition timeSpanToString :: "time_value \<Rightarrow> time_value \<Rightarrow> string" where
  "timeSpanToString startDate endDate = timeSpan_format (timeSpan_fields startDate endDate)"

text \<open>
  Reading a time span back, as the specification's reconstruction property needs it: the
  text up to the first colon, up to the next colon, up to the first dot after it, and the
  rest, each a non-empty run of decimal digits.
\<close>

fun position :: "char \<Rightarrow> string \<Rightarrow> nat option" where
  "position c [] = None"
| "position c (x # xs) = (if c = x then Some 0 else map_option Suc (position c xs))"

definition digit_value :: "char \<Rightarrow> nat option" where
  "digit_value c = position c ''0123456789''"

fun parse_digits :: "nat \<Rightarrow> string \<Rightarrow> nat option" where
  "parse_digits acc [] = Some acc"
| "parse_digits acc (c # cs) =
     (case digit_value c of None \<Rightarrow> None | Some v \<Rightarrow> parse_digits (10 * acc + v) cs)"

definition parse_field :: "string \<Rightarrow> nat option" where
  "parse_field s = (if s = [] then None else parse_digits 0 s)"

fun split_at :: "char \<Rightarrow> string \<Rightarrow> (string \<times> string) option" where
  "split_at sep [] = None"
| "split_at sep (c # cs) =
     (if c = sep then Some ([], cs)
      else case split_at sep cs of None \<Rightarrow> None | Some (a, b) \<Rightarrow> Some (c # a, b))"

definition parse_timespan :: "string \<Rightarrow> (nat \<times> nat \<times> nat \<times> nat) option" where
  "parse_timespan s =
     (case split_at CHR '':'' s of None \<Rightarrow> None | Some (hh, r1) \<Rightarrow>
      case split_at CHR '':'' r1 of None \<Rightarrow> None | Some (mm, r2) \<Rightarrow>
      case split_at CHR ''.'' r2 of None \<Rightarrow> None | Some (ss, sss) \<Rightarrow>
      case (parse_field hh, parse_field mm, parse_field ss, parse_field sss) of
        (Some H, Some M, Some S, Some ms) \<Rightarrow> Some (H, M, S, ms)
      | _ \<Rightarrow> None)"

subsection \<open>angleBetweenClockHands\<close>

text \<open>
  \<^verbatim>\<open>
  function angleBetweenClockHands(date) {
    const dateFormat = new Date(date);
    let hours = dateFormat.getHours();
    if (hours - 3 < 0) hours = hours - 3 + 24;
    else hours -= 3;
    if (hours > 12) {
      switch (hours) {
        case 13: hours = 1; break;
        case 14: hours = 2; break;
        case 15: hours = 3; break;
        case 16: hours = 4; break;
        case 17: hours = 5; break;
        case 18: hours = 6; break;
        case 19: hours = 7; break;
        case 20: hours = 8; break;
        case 21: hours = 9; break;
        case 22: hours = 10; break;
        case 23: hours = 11; break;
        default: hours = 0; break;
      }
    }
    const minutes = dateFormat.getMinutes();
    let ugol = Math.abs(0.5 * (60 * hours + minutes) - 6 * minutes);
    if (ugol > 180) ugol /= 3;
    return ((Math.PI * ugol) / 180);
  }
  \<close>
  The argument is a time value (the documented calls pass the Number that \<open>Date.UTC\<close>
  returns) and \<open>new Date(date)\<close> is the Date of that time value. The two assignments to
  \<open>hours\<close> are \<open>shift_hours\<close> and \<open>remap_hours\<close>. The angle is a real, and
  \<open>Math.PI\<close> is \<open>\<pi>\<close>: the rounding of the doubles is not modelled in this function.
\<close>

definition shift_hours :: "int \<Rightarrow> int" where
  "shift_hours hours = (if hours - 3 < 0 then hours - 3 + 24 else hours - 3)"

definition remap_hours :: "int \<Rightarrow> int" where
  "remap_hours hours =
     (if hours > 12 then
        (if hours = 13 then 1
         else if hours = 14 then 2
         else if hours = 15 then 3
         else if hours = 16 then 4
         else if hours = 17 then 5
         else if hours = 18 then 6
         else if hours = 19 then 7
         else if hours = 20 then 8
         else if hours = 21 then 9
         else if hours = 22 then 10
         else if hours = 23 then 11
         else 0)
      else hours)"

definition clock_hours :: "(time_value \<Rightarrow> int) \<Rightarrow> time_value \<Rightarrow> int" where
  "clock_hours tza date = remap_hours (shift_hours (getHours tza date))"

definition raw_ugol :: "(time_value \<Rightarrow> int) \<Rightarrow> time_value \<Rightarrow> real" where
  "raw_ugol tza date =
     (let hours = clock_hours tza date;
          minutes = getMinutes tza date
      in \<bar>0.5 * (60 * real_of_int hours + real_of_int minutes) - 6 * real_of_int minutes\<bar>)"

definition angleBetweenClockHands :: "(time_value \<Rightarrow> int) \<Rightarrow> time_value \<Rightarrow> real" where
  "angleBetweenClockHands tza date =
     (let ugol = raw_ugol tza date;
          ugol = (if ugol > 180 then ugol / 3 else ugol)
      in (pi * ugol) / 180)"

section \<open>The calendar: \<open>YearFromTime\<close> meets its specification\<close>

lemma DayFromYear_upper: "400 * DayFromYear y \<le> 146097 * (y - 1970) + 589"
proof -
  define a where "a = (y - 1969) div 4"
  define b where "b = (y - 1901) div 100"
  define c where "c = (y - 1601) div 400"
  have a: "4 * a \<le> y - 1969"
    unfolding a_def by linarith
  have b: "y - 1901 \<le> 100 * b + 99"
    unfolding b_def by linarith
  have c: "400 * c \<le> y - 1601"
    unfolding c_def by linarith
  have "DayFromYear y = 365 * (y - 1970) + a - b + c"
    by (simp add: DayFromYear_def a_def b_def c_def)
  with a b c show ?thesis
    by (simp add: algebra_simps)
qed

lemma DayFromYear_lower: "146097 * (y - 1970) - 506 \<le> 400 * DayFromYear y"
proof -
  define a where "a = (y - 1969) div 4"
  define b where "b = (y - 1901) div 100"
  define c where "c = (y - 1601) div 400"
  have a: "y - 1969 \<le> 4 * a + 3"
    unfolding a_def by linarith
  have b: "100 * b \<le> y - 1901"
    unfolding b_def by linarith
  have c: "y - 1601 \<le> 400 * c + 399"
    unfolding c_def by linarith
  have "DayFromYear y = 365 * (y - 1970) + a - b + c"
    by (simp add: DayFromYear_def a_def b_def c_def)
  with a b c show ?thesis
    by (simp add: algebra_simps)
qed

lemma DayFromYear_strict_mono:
  assumes "y < z"
  shows "DayFromYear y < DayFromYear z"
proof -
  have "400 * DayFromYear y \<le> 146097 * (y - 1970) + 589"
    by (rule DayFromYear_upper)
  moreover have "146097 * (z - 1970) - 506 \<le> 400 * DayFromYear z"
    by (rule DayFromYear_lower)
  moreover have "y + 1 \<le> z"
    using assms by simp
  ultimately show ?thesis
    by (simp add: algebra_simps)
qed

lemma YearFromDay_bounds:
  "DayFromYear (YearFromDay d) \<le> d \<and> d < DayFromYear (YearFromDay d + 1)"
proof -
  define q where "q = (400 * d) div 146097"
  define e where "e = 1970 + q"
  have "146097 * q \<le> 400 * d" "400 * d < 146097 * q + 146097"
    unfolding q_def by linarith+
  then have e: "146097 * (e - 1970) \<le> 400 * d" "400 * d < 146097 * (e - 1970) + 146097"
    by (simp_all add: e_def)
  have lo: "DayFromYear (e - 1) \<le> d"
    using DayFromYear_upper [of "e - 1"] e by (simp add: algebra_simps)
  have hi: "d < DayFromYear (e + 1 + 1)"
    using DayFromYear_lower [of "e + 1 + 1"] e by (simp add: algebra_simps)
  show ?thesis
    using lo hi by (simp add: YearFromDay_def Let_def e_def q_def)
qed

text \<open>
  The year computed is the one the ECMAScript specification asks for: the largest \<open>y\<close>
  whose first instant is not after \<open>t\<close>.
\<close>

lemma YearFromTime_largest:
  "TimeFromYear (YearFromTime t) \<le> t
   \<and> (\<forall>y. TimeFromYear y \<le> t \<longrightarrow> y \<le> YearFromTime t)"
proof -
  have md: "0 < msPerDay"
    by (simp add: msPerDay_def)
  have b: "DayFromYear (YearFromTime t) \<le> Day t" "Day t < DayFromYear (YearFromTime t + 1)"
    using YearFromDay_bounds [of "Day t"] by (simp_all add: YearFromTime_def)
  have split: "t = msPerDay * Day t + t mod msPerDay"
    by (simp add: Day_def)
  have r: "0 \<le> t mod msPerDay" "t mod msPerDay < msPerDay"
    using md by simp_all
  have "msPerDay * DayFromYear (YearFromTime t) \<le> msPerDay * Day t"
    using b(1) md by simp
  also have "\<dots> \<le> t"
    using split r(1) by linarith
  finally have 1: "TimeFromYear (YearFromTime t) \<le> t"
    by (simp add: TimeFromYear_def)
  have 2: "y \<le> YearFromTime t" if "TimeFromYear y \<le> t" for y
  proof (rule ccontr)
    assume "\<not> y \<le> YearFromTime t"
    then have "YearFromTime t + 1 \<le> y"
      by simp
    then have "DayFromYear (YearFromTime t + 1) \<le> DayFromYear y"
      using DayFromYear_strict_mono [of "YearFromTime t + 1" y]
      by (cases "YearFromTime t + 1 = y") auto
    then have "Day t + 1 \<le> DayFromYear y"
      using b(2) by simp
    then have "msPerDay * (Day t + 1) \<le> msPerDay * DayFromYear y"
      using md by simp
    moreover have "t < msPerDay * (Day t + 1)"
      using split r(2) by (simp add: algebra_simps)
    ultimately show False
      using that by (simp add: TimeFromYear_def)
  qed
  from 1 2 show ?thesis
    by blast
qed

section \<open>Numbers: where the integer arithmetic is exact\<close>

lemma number_rem_nonneg: "0 \<le> n \<Longrightarrow> number_rem n d = n mod \<bar>d\<bar>"
  by (cases "n = 0") (simp_all add: number_rem_def)

lemma number_rem_neg: "n < 0 \<Longrightarrow> number_rem n d = - ((- n) mod \<bar>d\<bar>)"
  by (simp add: number_rem_def)

lemma Math_trunc_div:
  assumes "0 \<le> a" and "0 < b"
  shows "Math_trunc (real_of_int a / real_of_int b) = a div b"
  using assms by (simp add: Math_trunc_def floor_divide_of_int_eq)

lemma to_double_small: "\<bar>x\<bar> \<le> 9007199254740992 \<Longrightarrow> to_double x = x"
  by (simp add: to_double_def)

lemma to_double_even: "even x \<Longrightarrow> to_double x = x"
  by (simp add: to_double_def)

text \<open>
  The difference of two valid time values stays below \<open>2^54\<close>, where the model of the
  rounding holds; the rounding moves it by at most one, and not at all up to \<open>2^53\<close>.
\<close>

lemma number_sub_valid_time:
  assumes "valid_time a" and "valid_time b"
  shows "\<bar>a - b\<bar> < 18014398509481984" and "\<bar>number_sub a b - (a - b)\<bar> \<le> 1"
  using assms by (auto simp add: valid_time_def number_sub_def to_double_def)

lemma number_sub_exact:
  "\<bar>a - b\<bar> \<le> 9007199254740992 \<Longrightarrow> number_sub a b = a - b"
  by (simp add: number_sub_def to_double_small)

text \<open>
  The computed difference is the exact one when that is at most \<open>2^53\<close> or even, and
  it is never below a bound that the exact one reaches.
\<close>

lemma number_sub_double:
  assumes "0 \<le> a - b" and "a - b \<le> 9007199254740992 \<or> even (a - b)"
  shows "number_sub a b = a - b"
  using assms by (auto simp add: number_sub_def to_double_def)

lemma number_sub_at_least:
  assumes "c \<le> a - b" and "0 \<le> c" and "c \<le> 9007199254740992"
  shows "c \<le> number_sub a b"
  using assms by (auto simp add: number_sub_def to_double_def)

text \<open>The computed difference is negative exactly when the exact one is.\<close>

lemma number_sub_nonneg_iff: "0 \<le> number_sub a b \<longleftrightarrow> b \<le> a"
  by (auto simp add: number_sub_def to_double_def)

section \<open>The two parsers\<close>

text \<open>
  Each parser returns what the host's \<open>Date.parse\<close> returns on the same string, and
  the two are one function.
\<close>

lemma parsers_are_Date_parse:
  "parseDataFromRfc2822 Date_parse v = Date_parse v
   \<and> parseDataFromIso8601 Date_parse v = Date_parse v
   \<and> parseDataFromRfc2822 Date_parse = parseDataFromIso8601 Date_parse"
  by (simp add: parseDataFromRfc2822_def parseDataFromIso8601_def fun_eq_iff)

section \<open>isLeapYear\<close>

text \<open>
  From year 0 on, the function is the Gregorian rule: the remainders are not negative, and
  the test \<open>% 4 > 0\<close> is the test \<open>% 4 \<noteq> 0\<close>.
\<close>

lemma isLeapYear_nonneg_year:
  assumes "0 \<le> getFullYear tza date"
  shows "isLeapYear tza date = gregorian_rule (getFullYear tza date)"
proof -
  define Y where "Y = getFullYear tza date"
  have "0 \<le> number_rem Y 4"
    using assms by (simp add: Y_def number_rem_nonneg)
  then show ?thesis
    unfolding isLeapYear_def gregorian_rule_def Y_def [symmetric] by auto
qed

text \<open>
  Before year 0, a remainder is zero or negative, never \<open>> 0\<close>: the first test lets every
  year through, and a year that 100 does not divide is reported as a leap year.
\<close>

lemma isLeapYear_negative_year:
  assumes "getFullYear tza date < 0" and "number_rem (getFullYear tza date) 100 \<noteq> 0"
  shows "isLeapYear tza date"
proof -
  have "number_rem (getFullYear tza date) 4 \<le> 0"
    using assms(1) by (simp add: number_rem_neg)
  then show ?thesis
    using assms(2) by (simp add: isLeapYear_def)
qed

text \<open>The documented examples, on a host whose local time is UTC.\<close>

lemma isLeapYear_examples:
  "map (\<lambda>y. isLeapYear tza_utc (Date_UTC y 1 1 0 0)) [1900, 2000, 2001, 2012, 2015]
   = [False, True, False, True, False]"
  by code_simp

text \<open>
  Claim C1. For every date value, isLeapYear is true if and only if the year \<open>Y\<close> of the
  date satisfies \<open>Y % 4 == 0 && (Y % 100 != 0 || Y % 400 == 0)\<close>. The code does not do
  so before year 0: for the first of January of the year -1, built by \<open>Date.UTC\<close> and
  read on a host whose local time is UTC, the year is -1, \<open>-1 % 4\<close> is -1 and not 0, so
  the rule says false, and the function returns true.
\<close>

theorem isLeapYear_year_minus_1:
  "getFullYear tza_utc (Date_UTC (- 1) 0 1 0 0) = - 1
   \<and> number_rem (- 1) 4 = - 1
   \<and> isLeapYear tza_utc (Date_UTC (- 1) 0 1 0 0) = True"
  by code_simp

text \<open>
  Claim C9. Two date values with the same year component have the same result: isLeapYear
  reads nothing of a date but its year, so that the month, the day and the time of day
  cannot change it.
\<close>

theorem isLeapYear_year_only:
  assumes "valid_time d1" and "valid_time d2"
    and "getFullYear tza d1 = getFullYear tza d2"
  shows "isLeapYear tza d1 = isLeapYear tza d2"
  using assms(3) by (simp add: isLeapYear_def)

theorem isLeapYear_year_only_witness:
  "valid_time (Date_UTC 2012 0 15 0 0) \<and> valid_time (Date_UTC 2012 11 31 20 59)
   \<and> getFullYear tza_plus3 (Date_UTC 2012 0 15 0 0)
       = getFullYear tza_plus3 (Date_UTC 2012 11 31 20 59)
   \<and> isLeapYear tza_plus3 (Date_UTC 2012 0 15 0 0)
       = isLeapYear tza_plus3 (Date_UTC 2012 11 31 20 59)"
proof -
  have v1: "valid_time (Date_UTC 2012 0 15 0 0)"
    by code_simp
  have v2: "valid_time (Date_UTC 2012 11 31 20 59)"
    by code_simp
  have y: "getFullYear tza_plus3 (Date_UTC 2012 0 15 0 0)
      = getFullYear tza_plus3 (Date_UTC 2012 11 31 20 59)"
    by code_simp
  from v1 v2 y isLeapYear_year_only [OF v1 v2 y] show ?thesis
    by (intro conjI)
qed

section \<open>timeSpanToString\<close>

subsection \<open>Digits and fields\<close>

lemma digit_char_table:
  "\<forall>n \<in> set [0..<10].
     digit_value (digit_char n) = Some n
     \<and> digit_char n \<noteq> CHR '':'' \<and> digit_char n \<noteq> CHR ''.''
     \<and> digit_char n \<in> set ''0123456789''"
  by code_simp

lemma digit_value_digit_char: "n < 10 \<Longrightarrow> digit_value (digit_char n) = Some n"
  using digit_char_table by simp

lemma digit_char_not_sep:
  "n < 10 \<Longrightarrow> digit_char n \<noteq> CHR '':'' \<and> digit_char n \<noteq> CHR ''.''"
  using digit_char_table by simp

lemma digit_char_decimal: "n < 10 \<Longrightarrow> digit_char n \<in> set ''0123456789''"
  using digit_char_table by simp

lemma digits_not_empty: "digits n \<noteq> []"
  by (subst digits.simps) simp

lemma digits_no_sep: "CHR '':'' \<notin> set (digits n) \<and> CHR ''.'' \<notin> set (digits n)"
proof (induction n rule: digits.induct)
  case (1 n)
  show ?case
  proof (cases "n < 10")
    case True
    then show ?thesis
      using digit_char_not_sep [of n] by (subst (1 2) digits.simps) auto
  next
    case False
    then show ?thesis
      using "1.IH" digit_char_not_sep [of "n mod 10"]
      by (subst (1 2) digits.simps) auto
  qed
qed

lemma digits_decimal: "set (digits n) \<subseteq> set ''0123456789''"
proof (induction n rule: digits.induct)
  case (1 n)
  show ?case
  proof (cases "n < 10")
    case True
    then show ?thesis
      using digit_char_decimal [of n] by (subst digits.simps) simp
  next
    case False
    then show ?thesis
      using "1.IH" digit_char_decimal [of "n mod 10"] by (subst digits.simps) simp
  qed
qed

lemma parse_digits_append:
  "parse_digits acc (xs @ ys) =
     (case parse_digits acc xs of None \<Rightarrow> None | Some v \<Rightarrow> parse_digits v ys)"
  by (induction xs arbitrary: acc) (auto split: option.splits)

text \<open>Reading the digits of a number gives the number back.\<close>

lemma parse_digits_digits:
  "parse_digits acc (digits n) = Some (acc * 10 ^ length (digits n) + n)"
proof (induction n arbitrary: acc rule: digits.induct)
  case (1 n)
  show ?case
  proof (cases "n < 10")
    case True
    then show ?thesis
      by (subst (1 2) digits.simps) (simp add: digit_value_digit_char)
  next
    case False
    have "parse_digits acc (digits n)
        = parse_digits acc (digits (n div 10) @ [digit_char (n mod 10)])"
      using False by (subst digits.simps) simp
    also have "\<dots> = Some (10 * (acc * 10 ^ length (digits (n div 10)) + n div 10) + n mod 10)"
      using False by (simp add: parse_digits_append "1.IH" digit_value_digit_char)
    also have "\<dots> = Some (acc * 10 ^ length (digits n) + n)"
      using False by (subst (2) digits.simps) (simp add: algebra_simps)
    finally show ?thesis .
  qed
qed

lemma parse_digits_zeros: "parse_digits 0 (replicate k CHR ''0'' @ s) = parse_digits 0 s"
  by (induction k) (simp_all add: digit_value_def)

lemma length_digits_bound: "n < 10 ^ k \<Longrightarrow> 0 < k \<Longrightarrow> length (digits n) \<le> k"
proof (induction n arbitrary: k rule: digits.induct)
  case (1 n)
  show ?case
  proof (cases "n < 10")
    case True
    then show ?thesis
      using "1.prems" by (subst digits.simps) simp
  next
    case False
    obtain j where k: "k = Suc j"
      using "1.prems"(2) by (cases k) auto
    have "j \<noteq> 0"
      using False "1.prems"(1) k by (cases j) auto
    moreover have "n div 10 < 10 ^ j"
      using "1.prems"(1) k by (simp add: less_mult_imp_div_less mult.commute)
    ultimately have "length (digits (n div 10)) \<le> j"
      using "1.IH" [of j] False by simp
    then show ?thesis
      using False k by (subst digits.simps) simp
  qed
qed

lemma length_digits_lower: "10 ^ k \<le> n \<Longrightarrow> k < length (digits n)"
proof (induction n arbitrary: k rule: digits.induct)
  case (1 n)
  show ?case
  proof (cases k)
    case 0
    then show ?thesis
      using digits_not_empty [of n] by simp
  next
    case (Suc j)
    then have n: "10 * 10 ^ j \<le> n"
      using "1.prems" by simp
    have "(1::nat) \<le> 10 ^ j"
      by simp
    then have "\<not> n < 10"
      using n by linarith
    moreover have "10 ^ j \<le> n div 10"
      using n by (simp add: less_eq_div_iff_mult_less_eq mult.commute)
    ultimately show ?thesis
      using "1.IH" [of j] Suc by (subst digits.simps) simp
  qed
qed

lemma padStart_zero: "padStart k ''0'' s = replicate (k - length s) CHR ''0'' @ s"
proof -
  have "concat (replicate m ''0'') = replicate m CHR ''0''" for m
    by (induction m) simp_all
  then show ?thesis
    by (simp add: padStart_def)
qed

lemma split_at_sep: "sep \<notin> set a \<Longrightarrow> split_at sep (a @ sep # b) = Some (a, b)"
  by (induction a) auto

lemma field_toString:
  assumes "0 \<le> x"
  shows "padStart k ''0'' (Number_toString x)
     = replicate (k - length (digits (nat x))) CHR ''0'' @ digits (nat x)"
  using assms by (simp add: padStart_zero Number_toString_def)

lemma field_parse: "parse_field (replicate j CHR ''0'' @ digits n) = Some n"
  by (simp add: parse_field_def digits_not_empty parse_digits_zeros parse_digits_digits)

lemma field_no_sep:
  "CHR '':'' \<notin> set (replicate j CHR ''0'' @ digits n)
   \<and> CHR ''.'' \<notin> set (replicate j CHR ''0'' @ digits n)"
  using digits_no_sep [of n] by auto

lemma field_decimal: "set (padStart k ''0'' (digits n)) \<subseteq> set ''0123456789''"
  using digits_decimal [of n] by (auto simp add: padStart_zero)

lemma field_value: "parse_field (padStart k ''0'' (digits n)) = Some n"
  by (simp add: padStart_zero field_parse)

lemma field_width: "n < 10 ^ k \<Longrightarrow> 0 < k \<Longrightarrow> length (padStart k ''0'' (digits n)) = k"
  using length_digits_bound [of n k] by (simp add: padStart_zero)

lemma field_width_least: "k \<le> length (padStart k ''0'' (digits n))"
  by (simp add: padStart_zero)

lemma field_width_digits: "length (digits n) \<le> length (padStart k ''0'' (digits n))"
  by (simp add: padStart_zero)

subsection \<open>The four fields of a time span that is not negative\<close>

text \<open>
  On a difference \<open>D \<ge> 0\<close> the remainders and the truncated quotients are \<open>mod\<close> and
  \<open>div\<close>; each product is even and each of the three subtractions leaves less than
  3600000, so that no double rounds after the first subtraction.
\<close>

lemma timeSpan_fields_nonneg:
  assumes "0 \<le> number_sub endDate startDate"
  shows "timeSpan_fields startDate endDate =
    (let D = number_sub endDate startDate in
     (D div 3600000, (D mod 3600000) div 60000, (D mod 60000) div 1000, D mod 1000))"
proof -
  define D where "D = number_sub endDate startDate"
  have D: "0 \<le> D"
    using assms by (simp add: D_def)
  have r1: "number_rem D 3600000 = D mod 3600000"
    using D by (simp add: number_rem_nonneg)
  have r2: "number_rem (D mod 3600000) 60000 = D mod 60000"
    by (simp add: number_rem_nonneg mod_mod_cancel)
  have h: "Math_trunc (real_of_int D / 3600000) = D div 3600000"
    using Math_trunc_div [of D 3600000] D by simp
  have m: "Math_trunc (real_of_int (D mod 3600000) / 60000) = (D mod 3600000) div 60000"
    using Math_trunc_div [of "D mod 3600000" 60000] by simp
  have s: "Math_trunc (real_of_int (D mod 60000) / 1000) = (D mod 60000) div 1000"
    using Math_trunc_div [of "D mod 60000" 1000] by simp
  have p1: "number_mul 3600000 (D div 3600000) = 3600000 * (D div 3600000)"
    by (simp add: number_mul_def to_double_even)
  have p2: "number_mul ((D mod 3600000) div 60000) 60000 = (D mod 3600000) div 60000 * 60000"
    by (simp add: number_mul_def to_double_even)
  have p3: "number_mul ((D mod 60000) div 1000) 1000 = (D mod 60000) div 1000 * 1000"
    by (simp add: number_mul_def to_double_even)
  have d1: "D - 3600000 * (D div 3600000) = D mod 3600000"
    by (simp add: minus_mult_div_eq_mod)
  have d2: "D mod 3600000 - (D mod 3600000) div 60000 * 60000 = D mod 60000"
    by (simp add: minus_div_mult_eq_mod mod_mod_cancel)
  have d3: "D mod 60000 - (D mod 60000) div 1000 * 1000 = D mod 1000"
    by (simp add: minus_div_mult_eq_mod mod_mod_cancel)
  have b1: "\<bar>D mod 3600000\<bar> \<le> 9007199254740992"
    using pos_mod_bound [of 3600000 D] pos_mod_sign [of 3600000 D] by linarith
  have b2: "\<bar>D mod 60000\<bar> \<le> 9007199254740992"
    using pos_mod_bound [of 60000 D] pos_mod_sign [of 60000 D] by linarith
  have b3: "\<bar>D mod 1000\<bar> \<le> 9007199254740992"
    using pos_mod_bound [of 1000 D] pos_mod_sign [of 1000 D] by linarith
  have s1: "number_sub D (3600000 * (D div 3600000)) = D mod 3600000"
    unfolding number_sub_def d1 using b1 by (rule to_double_small)
  have s2: "number_sub (D mod 3600000) ((D mod 3600000) div 60000 * 60000) = D mod 60000"
    unfolding number_sub_def d2 using b2 by (rule to_double_small)
  have s3: "number_sub (D mod 60000) ((D mod 60000) div 1000 * 1000) = D mod 1000"
    unfolding number_sub_def d3 using b3 by (rule to_double_small)
  show ?thesis
    unfolding timeSpan_fields_def D_def [symmetric] Let_def
    by (simp only: r1 r2 h m s p1 p2 p3 s1 s2 s3)
qed

lemma timeSpanToString_nonneg:
  assumes "0 \<le> number_sub endDate startDate"
  defines "D \<equiv> number_sub endDate startDate"
  defines "H \<equiv> nat (D div 3600000)" and "M \<equiv> nat ((D mod 3600000) div 60000)"
    and "S \<equiv> nat ((D mod 60000) div 1000)" and "ms \<equiv> nat (D mod 1000)"
  shows "timeSpanToString startDate endDate =
     (replicate (2 - length (digits H)) CHR ''0'' @ digits H) @ '':''
     @ (replicate (2 - length (digits M)) CHR ''0'' @ digits M) @ '':''
     @ (replicate (2 - length (digits S)) CHR ''0'' @ digits S) @ ''.''
     @ (replicate (3 - length (digits ms)) CHR ''0'' @ digits ms)"
proof -
  have D: "0 \<le> D"
    using assms(1) by (simp add: D_def)
  have n: "0 \<le> D div 3600000" "0 \<le> (D mod 3600000) div 60000"
      "0 \<le> (D mod 60000) div 1000" "0 \<le> D mod 1000"
    using D by (simp_all add: pos_imp_zdiv_nonneg_iff)
  show ?thesis
    unfolding timeSpanToString_def timeSpan_fields_nonneg [OF assms(1)] Let_def
      D_def [symmetric] timeSpan_format_def prod.case
      field_toString [OF n(1)] field_toString [OF n(2)] field_toString [OF n(3)]
      field_toString [OF n(4)] H_def M_def S_def ms_def ..
qed

text \<open>The string depends on the two dates through their difference only.\<close>

lemma timeSpanToString_difference:
  assumes "endDate - startDate = d" and "\<bar>d\<bar> \<le> 9007199254740992"
  shows "timeSpanToString startDate endDate = timeSpanToString 0 d"
proof -
  have "number_sub endDate startDate = number_sub d 0"
    using assms by (simp add: number_sub_exact)
  then show ?thesis
    by (simp add: timeSpanToString_def timeSpan_fields_def)
qed

lemma parse_timespan_fields:
  "parse_timespan
     ((replicate a CHR ''0'' @ digits H) @ '':'' @ (replicate b CHR ''0'' @ digits M) @ '':''
      @ (replicate c CHR ''0'' @ digits S) @ ''.'' @ (replicate d CHR ''0'' @ digits ms))
   = Some (H, M, S, ms)"
proof -
  define hh where "hh = replicate a CHR ''0'' @ digits H"
  define mm where "mm = replicate b CHR ''0'' @ digits M"
  define ss where "ss = replicate c CHR ''0'' @ digits S"
  define sss where "sss = replicate d CHR ''0'' @ digits ms"
  have 1: "split_at CHR '':'' (hh @ CHR '':'' # mm @ CHR '':'' # ss @ CHR ''.'' # sss)
      = Some (hh, mm @ CHR '':'' # ss @ CHR ''.'' # sss)"
    using field_no_sep [of a H] by (intro split_at_sep) (simp add: hh_def)
  have 2: "split_at CHR '':'' (mm @ CHR '':'' # ss @ CHR ''.'' # sss)
      = Some (mm, ss @ CHR ''.'' # sss)"
    using field_no_sep [of b M] by (intro split_at_sep) (simp add: mm_def)
  have 3: "split_at CHR ''.'' (ss @ CHR ''.'' # sss) = Some (ss, sss)"
    using field_no_sep [of c S] by (intro split_at_sep) (simp add: ss_def)
  have p: "parse_field hh = Some H" "parse_field mm = Some M"
      "parse_field ss = Some S" "parse_field sss = Some ms"
    by (simp_all add: hh_def mm_def ss_def sss_def field_parse)
  have "parse_timespan (hh @ '':'' @ mm @ '':'' @ ss @ ''.'' @ sss) = Some (H, M, S, ms)"
    by (simp add: parse_timespan_def 1 2 3 p)
  then show ?thesis
    by (simp only: hh_def mm_def ss_def sss_def)
qed

lemma timeSpan_sum:
  fixes D :: int
  shows "D div 3600000 * 3600000 + (D mod 3600000) div 60000 * 60000
      + (D mod 60000) div 1000 * 1000 + D mod 1000 = D"
proof -
  have "(D mod 60000) div 1000 * 1000 + D mod 1000 = D mod 60000"
    using div_mult_mod_eq [of "D mod 60000" 1000] by (simp add: mod_mod_cancel)
  moreover have "(D mod 3600000) div 60000 * 60000 + D mod 60000 = D mod 3600000"
    using div_mult_mod_eq [of "D mod 3600000" 60000] by (simp add: mod_mod_cancel)
  moreover have "D div 3600000 * 3600000 + D mod 3600000 = D"
    by simp
  ultimately show ?thesis
    by linarith
qed

lemma floor_div_numeral:
  "\<lfloor>real_of_int a / 3600000\<rfloor> = a div 3600000"
  "\<lfloor>real_of_int a / 60000\<rfloor> = a div 60000"
  "\<lfloor>real_of_int a / 1000\<rfloor> = a div 1000"
  using floor_divide_of_int_eq [of a 3600000, where ?'a = real]
    floor_divide_of_int_eq [of a 60000, where ?'a = real]
    floor_divide_of_int_eq [of a 1000, where ?'a = real]
  by simp_all

text \<open>
  The fields as numbers: what the four constants of the source hold on a difference that
  is not negative, as naturals.
\<close>

lemma timeSpan_fields_nat:
  assumes "0 \<le> D"
  defines "H \<equiv> nat (D div 3600000)" and "M \<equiv> nat ((D mod 3600000) div 60000)"
    and "S \<equiv> nat ((D mod 60000) div 1000)" and "ms \<equiv> nat (D mod 1000)"
  shows "int H = D div 3600000" and "int M = (D mod 3600000) div 60000"
    and "int S = (D mod 60000) div 1000" and "int ms = D mod 1000"
proof -
  have n: "0 \<le> D div 3600000" "0 \<le> (D mod 3600000) div 60000"
      "0 \<le> (D mod 60000) div 1000" "0 \<le> D mod 1000"
    using assms(1) by (simp_all add: pos_imp_zdiv_nonneg_iff)
  show "int H = D div 3600000" and "int M = (D mod 3600000) div 60000"
    and "int S = (D mod 60000) div 1000" and "int ms = D mod 1000"
    unfolding H_def M_def S_def ms_def using n by (simp_all only: int_nat_eq if_True)
qed

subsection \<open>Reconstruction\<close>

text \<open>
  The fields read back from the string sum to the Number that the code computes for the
  difference of the two dates.
\<close>

lemma timeSpan_Number_reconstructs:
  assumes "valid_time startDate" and "valid_time endDate"
    and "0 \<le> number_sub endDate startDate"
  shows "(\<exists>H M S ms.
            parse_timespan (timeSpanToString startDate endDate) = Some (H, M, S, ms)
            \<and> int H * 3600000 + int M * 60000 + int S * 1000 + int ms
                = number_sub endDate startDate)
    \<and> (endDate - startDate = 3600000
          \<longrightarrow> timeSpanToString startDate endDate = ''01:00:00.000'')
    \<and> (endDate - startDate = 1800000
          \<longrightarrow> timeSpanToString startDate endDate = ''00:30:00.000'')
    \<and> (endDate - startDate = 20000
          \<longrightarrow> timeSpanToString startDate endDate = ''00:00:20.000'')
    \<and> (endDate - startDate = 250
          \<longrightarrow> timeSpanToString startDate endDate = ''00:00:00.250'')
    \<and> (endDate - startDate = 19210453
          \<longrightarrow> timeSpanToString startDate endDate = ''05:20:10.453'')"
proof -
  define D where "D = number_sub endDate startDate"
  have D: "0 \<le> D"
    using assms(3) by (simp add: D_def)
  define H where "H = nat (D div 3600000)"
  define M where "M = nat ((D mod 3600000) div 60000)"
  define S where "S = nat ((D mod 60000) div 1000)"
  define ms where "ms = nat (D mod 1000)"
  have str: "timeSpanToString startDate endDate =
     (replicate (2 - length (digits H)) CHR ''0'' @ digits H) @ '':''
     @ (replicate (2 - length (digits M)) CHR ''0'' @ digits M) @ '':''
     @ (replicate (2 - length (digits S)) CHR ''0'' @ digits S) @ ''.''
     @ (replicate (3 - length (digits ms)) CHR ''0'' @ digits ms)"
    unfolding H_def M_def S_def ms_def D_def by (rule timeSpanToString_nonneg [OF assms(3)])
  have parse: "parse_timespan (timeSpanToString startDate endDate) = Some (H, M, S, ms)"
    unfolding str by (rule parse_timespan_fields)
  have i: "int H = D div 3600000" "int M = (D mod 3600000) div 60000"
      "int S = (D mod 60000) div 1000" "int ms = D mod 1000"
    unfolding H_def M_def S_def ms_def by (rule timeSpan_fields_nat [OF D])+
  have sum: "int H * 3600000 + int M * 60000 + int S * 1000 + int ms
      = number_sub endDate startDate"
    unfolding i D_def [symmetric] by (rule timeSpan_sum)
  from parse sum have "\<exists>H M S ms.
      parse_timespan (timeSpanToString startDate endDate) = Some (H, M, S, ms)
      \<and> int H * 3600000 + int M * 60000 + int S * 1000 + int ms
          = number_sub endDate startDate"
    by (intro exI conjI)
  moreover
  have "endDate - startDate = 3600000
      \<longrightarrow> timeSpanToString startDate endDate = ''01:00:00.000''"
  proof
    assume "endDate - startDate = 3600000"
    then have "timeSpanToString startDate endDate = timeSpanToString 0 3600000"
      by (rule timeSpanToString_difference) simp
    also have "\<dots> = ''01:00:00.000''"
      by code_simp
    finally show "timeSpanToString startDate endDate = ''01:00:00.000''" .
  qed
  moreover
  have "endDate - startDate = 1800000
      \<longrightarrow> timeSpanToString startDate endDate = ''00:30:00.000''"
  proof
    assume "endDate - startDate = 1800000"
    then have "timeSpanToString startDate endDate = timeSpanToString 0 1800000"
      by (rule timeSpanToString_difference) simp
    also have "\<dots> = ''00:30:00.000''"
      by code_simp
    finally show "timeSpanToString startDate endDate = ''00:30:00.000''" .
  qed
  moreover
  have "endDate - startDate = 20000
      \<longrightarrow> timeSpanToString startDate endDate = ''00:00:20.000''"
  proof
    assume "endDate - startDate = 20000"
    then have "timeSpanToString startDate endDate = timeSpanToString 0 20000"
      by (rule timeSpanToString_difference) simp
    also have "\<dots> = ''00:00:20.000''"
      by code_simp
    finally show "timeSpanToString startDate endDate = ''00:00:20.000''" .
  qed
  moreover
  have "endDate - startDate = 250
      \<longrightarrow> timeSpanToString startDate endDate = ''00:00:00.250''"
  proof
    assume "endDate - startDate = 250"
    then have "timeSpanToString startDate endDate = timeSpanToString 0 250"
      by (rule timeSpanToString_difference) simp
    also have "\<dots> = ''00:00:00.250''"
      by code_simp
    finally show "timeSpanToString startDate endDate = ''00:00:00.250''" .
  qed
  moreover
  have "endDate - startDate = 19210453
      \<longrightarrow> timeSpanToString startDate endDate = ''05:20:10.453''"
  proof
    assume "endDate - startDate = 19210453"
    then have "timeSpanToString startDate endDate = timeSpanToString 0 19210453"
      by (rule timeSpanToString_difference) simp
    also have "\<dots> = ''05:20:10.453''"
      by code_simp
    finally show "timeSpanToString startDate endDate = ''05:20:10.453''" .
  qed
  ultimately show ?thesis
    by (intro conjI)
qed

lemma parse_timespan_timeSpanToString:
  assumes "0 \<le> number_sub endDate startDate"
  defines "D \<equiv> number_sub endDate startDate"
  shows "parse_timespan (timeSpanToString startDate endDate)
    = Some (nat (D div 3600000), nat ((D mod 3600000) div 60000),
        nat ((D mod 60000) div 1000), nat (D mod 1000))"
  unfolding D_def timeSpanToString_nonneg [OF assms(1)] by (rule parse_timespan_fields)

text \<open>
  Claim C2, as the specification states it: for every pair of date values whose difference
  \<open>D = endDate - startDate\<close> is not negative, the fields read back from the string sum
  to \<open>D\<close> exactly. It fails for two valid dates \<open>2^53 + 1\<close> ms apart: the subtraction
  rounds the difference to the double \<open>2^53\<close>, the string is
  \<open>"2501999792:59:00.992"\<close>, and its fields sum to \<open>2^53\<close>.
\<close>

theorem timeSpanToString_reconstructs_counterexample:
  "valid_time (- 4503599627370496) \<and> valid_time 4503599627370497
   \<and> 4503599627370497 - (- 4503599627370496) = (9007199254740993 :: int)
   \<and> parse_timespan (timeSpanToString (- 4503599627370496) 4503599627370497)
       = Some (2501999792, 59, 0, 992)
   \<and> int 2501999792 * 3600000 + int 59 * 60000 + int 0 * 1000 + int 992
       \<noteq> 4503599627370497 - (- 4503599627370496)"
proof -
  have n: "number_sub 4503599627370497 (- 4503599627370496) = 9007199254740992"
    by code_simp
  have "parse_timespan (timeSpanToString (- 4503599627370496) 4503599627370497)
       = Some (2501999792, 59, 0, 992)"
    using parse_timespan_timeSpanToString [of 4503599627370497 "- 4503599627370496"]
    unfolding n by simp
  then show ?thesis
    by (simp add: valid_time_def)
qed

text \<open>
  Claim C2, amended. For every pair of date values whose difference
  \<open>D = endDate - startDate\<close> is not negative and is at most \<open>2^53\<close> ms or even (so
  that \<open>D\<close> is a double), the fields \<open>H\<close>, \<open>M\<close>, \<open>S\<close>, \<open>ms\<close> read back from
  the string that timeSpanToString returns satisfy
  \<open>H*3600000 + M*60000 + S*1000 + ms = D\<close> exactly; a difference of one hour gives
  \<open>"01:00:00.000"\<close>, of 30 minutes \<open>"00:30:00.000"\<close>, of 20 seconds
  \<open>"00:00:20.000"\<close>, of 250 ms \<open>"00:00:00.250"\<close>, and of 5 h 20 min 10 s 453 ms
  \<open>"05:20:10.453"\<close>.
\<close>

theorem timeSpanToString_reconstructs:
  assumes "valid_time startDate" and "valid_time endDate"
    and "0 \<le> endDate - startDate"
    and "endDate - startDate \<le> 9007199254740992 \<or> even (endDate - startDate)"
  shows "(\<exists>H M S ms.
            parse_timespan (timeSpanToString startDate endDate) = Some (H, M, S, ms)
            \<and> int H * 3600000 + int M * 60000 + int S * 1000 + int ms
                = endDate - startDate)
    \<and> (endDate - startDate = 3600000
          \<longrightarrow> timeSpanToString startDate endDate = ''01:00:00.000'')
    \<and> (endDate - startDate = 1800000
          \<longrightarrow> timeSpanToString startDate endDate = ''00:30:00.000'')
    \<and> (endDate - startDate = 20000
          \<longrightarrow> timeSpanToString startDate endDate = ''00:00:20.000'')
    \<and> (endDate - startDate = 250
          \<longrightarrow> timeSpanToString startDate endDate = ''00:00:00.250'')
    \<and> (endDate - startDate = 19210453
          \<longrightarrow> timeSpanToString startDate endDate = ''05:20:10.453'')"
proof -
  have n: "number_sub endDate startDate = endDate - startDate"
    using assms(3,4) by (rule number_sub_double)
  have "0 \<le> number_sub endDate startDate"
    unfolding n by (rule assms(3))
  from timeSpan_Number_reconstructs [OF assms(1,2) this] show ?thesis
    unfolding n .
qed

theorem timeSpanToString_reconstructs_witness:
  "valid_time (Date_UTC 2000 1 1 10 0) \<and> valid_time (Date_UTC 2000 1 1 15 20)
   \<and> 0 \<le> Date_UTC 2000 1 1 15 20 - Date_UTC 2000 1 1 10 0
   \<and> Date_UTC 2000 1 1 15 20 - Date_UTC 2000 1 1 10 0 \<le> 9007199254740992
   \<and> Date_UTC 2000 1 1 15 20 - Date_UTC 2000 1 1 10 0 = 19200000
   \<and> (\<exists>H M S ms.
         parse_timespan (timeSpanToString (Date_UTC 2000 1 1 10 0) (Date_UTC 2000 1 1 15 20))
           = Some (H, M, S, ms)
         \<and> int H * 3600000 + int M * 60000 + int S * 1000 + int ms
             = Date_UTC 2000 1 1 15 20 - Date_UTC 2000 1 1 10 0)
   \<and> parse_timespan (timeSpanToString (Date_UTC 2000 1 1 10 0) (Date_UTC 2000 1 1 15 20))
       = Some (5, 20, 0, 0)
   \<and> valid_time (- 8640000000000000) \<and> valid_time 8640000000000000
   \<and> even (8640000000000000 - (- 8640000000000000 :: int))
   \<and> (\<exists>H M S ms.
         parse_timespan (timeSpanToString (- 8640000000000000) 8640000000000000)
           = Some (H, M, S, ms)
         \<and> int H * 3600000 + int M * 60000 + int S * 1000 + int ms
             = 8640000000000000 - (- 8640000000000000))"
proof -
  have v1: "valid_time (Date_UTC 2000 1 1 10 0)"
    by code_simp
  have v2: "valid_time (Date_UTC 2000 1 1 15 20)"
    by code_simp
  have n: "Date_UTC 2000 1 1 15 20 - Date_UTC 2000 1 1 10 0 = 19200000"
    by code_simp
  have d: "0 \<le> Date_UTC 2000 1 1 15 20 - Date_UTC 2000 1 1 10 0"
    unfolding n by simp
  have b: "Date_UTC 2000 1 1 15 20 - Date_UTC 2000 1 1 10 0 \<le> 9007199254740992"
    unfolding n by simp
  have p: "parse_timespan (timeSpanToString (Date_UTC 2000 1 1 10 0) (Date_UTC 2000 1 1 15 20))
      = Some (5, 20, 0, 0)"
    by code_simp
  from timeSpanToString_reconstructs [OF v1 v2 d disjI1 [OF b]]
  have small: "\<exists>H M S ms.
      parse_timespan (timeSpanToString (Date_UTC 2000 1 1 10 0) (Date_UTC 2000 1 1 15 20))
        = Some (H, M, S, ms)
      \<and> int H * 3600000 + int M * 60000 + int S * 1000 + int ms
          = Date_UTC 2000 1 1 15 20 - Date_UTC 2000 1 1 10 0"
    by (rule conjunct1)
  have w1: "valid_time (- 8640000000000000)" and w2: "valid_time 8640000000000000"
    by (simp_all add: valid_time_def)
  have e: "even (8640000000000000 - (- 8640000000000000 :: int))"
    by simp
  have g: "0 \<le> 8640000000000000 - (- 8640000000000000 :: int)"
    by simp
  from timeSpanToString_reconstructs [OF w1 w2 g disjI2 [OF e]]
  have wide: "\<exists>H M S ms.
      parse_timespan (timeSpanToString (- 8640000000000000) 8640000000000000)
        = Some (H, M, S, ms)
      \<and> int H * 3600000 + int M * 60000 + int S * 1000 + int ms
          = 8640000000000000 - (- 8640000000000000)"
    by (rule conjunct1)
  from v1 v2 d b n small p w1 w2 e wide show ?thesis
    by (intro conjI)
qed

subsection \<open>Shape\<close>

text \<open>
  The shape of the string, with each field the integral part of a quotient of the Number
  that the code computes for the difference of the two dates.
\<close>

lemma timeSpan_Number_shape:
  assumes "valid_time startDate" and "valid_time endDate"
    and "0 \<le> number_sub endDate startDate"
  shows "\<exists>H M S ms.
      timeSpanToString startDate endDate
        = padStart 2 ''0'' (digits H) @ '':'' @ padStart 2 ''0'' (digits M) @ '':''
          @ padStart 2 ''0'' (digits S) @ ''.'' @ padStart 3 ''0'' (digits ms)
    \<and> int H = \<lfloor>real_of_int (number_sub endDate startDate) / 3600000\<rfloor>
    \<and> int M = \<lfloor>real_of_int (number_sub endDate startDate - int H * 3600000) / 60000\<rfloor>
    \<and> int S = \<lfloor>real_of_int (number_sub endDate startDate - int H * 3600000
                  - int M * 60000) / 1000\<rfloor>
    \<and> int ms = number_sub endDate startDate - int H * 3600000 - int M * 60000 - int S * 1000
    \<and> M \<le> 59 \<and> S \<le> 59 \<and> ms \<le> 999
    \<and> set (padStart 2 ''0'' (digits H)) \<subseteq> set ''0123456789''
    \<and> set (padStart 2 ''0'' (digits M)) \<subseteq> set ''0123456789''
    \<and> set (padStart 2 ''0'' (digits S)) \<subseteq> set ''0123456789''
    \<and> set (padStart 3 ''0'' (digits ms)) \<subseteq> set ''0123456789''
    \<and> parse_field (padStart 2 ''0'' (digits H)) = Some H
    \<and> parse_field (padStart 2 ''0'' (digits M)) = Some M
    \<and> parse_field (padStart 2 ''0'' (digits S)) = Some S
    \<and> parse_field (padStart 3 ''0'' (digits ms)) = Some ms
    \<and> (if 360000000 \<le> number_sub endDate startDate then 3 else 2)
          \<le> length (padStart 2 ''0'' (digits H))
    \<and> length (padStart 2 ''0'' (digits M)) = 2
    \<and> length (padStart 2 ''0'' (digits S)) = 2
    \<and> length (padStart 3 ''0'' (digits ms)) = 3"
proof -
  define D where "D = number_sub endDate startDate"
  have D: "0 \<le> D"
    using assms(3) by (simp add: D_def)
  define H where "H = nat (D div 3600000)"
  define M where "M = nat ((D mod 3600000) div 60000)"
  define S where "S = nat ((D mod 60000) div 1000)"
  define ms where "ms = nat (D mod 1000)"
  have i: "int H = D div 3600000" "int M = (D mod 3600000) div 60000"
      "int S = (D mod 60000) div 1000" "int ms = D mod 1000"
    unfolding H_def M_def S_def ms_def by (rule timeSpan_fields_nat [OF D])+
  have str: "timeSpanToString startDate endDate
        = padStart 2 ''0'' (digits H) @ '':'' @ padStart 2 ''0'' (digits M) @ '':''
          @ padStart 2 ''0'' (digits S) @ ''.'' @ padStart 3 ''0'' (digits ms)"
    unfolding padStart_zero H_def M_def S_def ms_def D_def
    using timeSpanToString_nonneg [OF assms(3)] by simp
  have d1: "D - int H * 3600000 = D mod 3600000"
    unfolding i by (simp add: minus_div_mult_eq_mod)
  have d2: "D - int H * 3600000 - int M * 60000 = D mod 60000"
    unfolding d1 unfolding i by (simp add: minus_div_mult_eq_mod mod_mod_cancel)
  have d3: "D - int H * 3600000 - int M * 60000 - int S * 1000 = D mod 1000"
    unfolding d2 unfolding i by (simp add: minus_div_mult_eq_mod mod_mod_cancel)
  have t1: "int H = \<lfloor>real_of_int D / 3600000\<rfloor>"
    unfolding floor_div_numeral by (rule i)
  have t2: "int M = \<lfloor>real_of_int (D - int H * 3600000) / 60000\<rfloor>"
    unfolding d1 floor_div_numeral by (rule i)
  have t3: "int S = \<lfloor>real_of_int (D - int H * 3600000 - int M * 60000) / 1000\<rfloor>"
    unfolding d2 floor_div_numeral by (rule i)
  have t4: "int ms = D - int H * 3600000 - int M * 60000 - int S * 1000"
    unfolding d3 by (rule i)
  have "x div 60000 < 60" if "x < 3600000" for x :: int
    using that by linarith
  then have "(D mod 3600000) div 60000 < 60"
    using pos_mod_bound [of 3600000 D] by simp
  then have M: "M \<le> 59"
    using i(2) by linarith
  have "x div 1000 < 60" if "x < 60000" for x :: int
    using that by linarith
  then have "(D mod 60000) div 1000 < 60"
    using pos_mod_bound [of 60000 D] by simp
  then have S: "S \<le> 59"
    using i(3) by linarith
  have "D mod 1000 < 1000"
    by simp
  then have ms: "ms \<le> 999"
    using i(4) by linarith
  have w: "length (padStart 2 ''0'' (digits M)) = 2" "length (padStart 2 ''0'' (digits S)) = 2"
      "length (padStart 3 ''0'' (digits ms)) = 3"
    using M S ms by (simp_all add: field_width)
  have wH: "(if 360000000 \<le> D then 3 else 2) \<le> length (padStart 2 ''0'' (digits H))"
  proof (cases "360000000 \<le> D")
    case True
    then have "100 \<le> D div 3600000"
      by linarith
    then have "10 ^ 2 \<le> H"
      using i(1) by simp
    then have "2 < length (digits H)"
      by (rule length_digits_lower)
    then show ?thesis
      using True field_width_digits [of H 2] by simp
  next
    case False
    then show ?thesis
      using field_width_least [of 2 H] by simp
  qed
  show ?thesis
    unfolding D_def [symmetric]
    using str t1 t2 t3 t4 M S ms field_decimal field_value wH w
    by (intro exI conjI)
qed

text \<open>
  Claim C6, as the specification states it: every field is obtained by truncation toward
  zero, never by rounding. It fails at the widest span of valid dates less one
  millisecond: the difference has 4799999999 whole hours (and 59 min 59 s 999 ms), the
  subtraction rounds it up to the next double, and the string is
  \<open>"4800000000:00:00.000"\<close>.
\<close>

lemma widest_span_fields:
  "timeSpan_fields (- 8639999999999999) 8640000000000000 = (4800000000, 0, 0, 0)"
  by code_simp

lemma digits_4800000000: "digits 4800000000 = ''4800000000''"
  by (simp add: digits.simps digit_char_def)

theorem timeSpanToString_shape_counterexample:
  "valid_time (- 8639999999999999) \<and> valid_time 8640000000000000
   \<and> 0 \<le> 8640000000000000 - (- 8639999999999999 :: int)
   \<and> timeSpanToString (- 8639999999999999) 8640000000000000 = ''4800000000:00:00.000''
   \<and> parse_field ''4800000000'' = Some 4800000000
   \<and> \<lfloor>real_of_int (8640000000000000 - (- 8639999999999999)) / 3600000\<rfloor> = 4799999999"
proof -
  have s: "timeSpanToString (- 8639999999999999) 8640000000000000 = ''4800000000:00:00.000''"
    by (simp add: timeSpanToString_def widest_span_fields timeSpan_format_def
        Number_toString_def padStart_zero digits_4800000000 digits.simps [of 0] digit_char_def
        numeral_2_eq_2 numeral_3_eq_3)
  have p: "parse_field ''4800000000'' = Some 4800000000"
    unfolding digits_4800000000 [symmetric] using field_parse [of 0 4800000000] by simp
  have f: "\<lfloor>real_of_int (8640000000000000 - (- 8639999999999999)) / 3600000\<rfloor> = 4799999999"
    by (simp add: floor_div_numeral)
  from s p f show ?thesis
    by (simp add: valid_time_def)
qed

text \<open>
  Claim C6, amended. For two date values with a difference \<open>D = endDate - startDate\<close>
  that is not negative, the string has the shape \<open>"HH:mm:ss.sss"\<close>: four fields of
  decimal digits, separated by a colon, a colon and a dot. The hours are padded with zeros
  to at least 2 digits and have 3 or more from 100 hours on; minutes and seconds have
  exactly 2 digits and a value from 0 to 59; the milliseconds have exactly 3 digits and a
  value from 0 to 999. Each field is the integral part (the floor, which is the truncation
  toward zero on a quotient that is not negative) of a quotient of the Number that the
  code computes for \<open>D\<close>, the milliseconds being what is left; and when \<open>D\<close> is at
  most \<open>2^53\<close> ms or even, so that it is a double, each field is that integral part for
  \<open>D\<close> itself.
\<close>

theorem timeSpanToString_shape:
  assumes "valid_time startDate" and "valid_time endDate"
    and "0 \<le> endDate - startDate"
  shows "\<exists>H M S ms.
      timeSpanToString startDate endDate
        = padStart 2 ''0'' (digits H) @ '':'' @ padStart 2 ''0'' (digits M) @ '':''
          @ padStart 2 ''0'' (digits S) @ ''.'' @ padStart 3 ''0'' (digits ms)
    \<and> int H = \<lfloor>real_of_int (number_sub endDate startDate) / 3600000\<rfloor>
    \<and> int M = \<lfloor>real_of_int (number_sub endDate startDate - int H * 3600000) / 60000\<rfloor>
    \<and> int S = \<lfloor>real_of_int (number_sub endDate startDate - int H * 3600000 - int M * 60000) / 1000\<rfloor>
    \<and> int ms = number_sub endDate startDate - int H * 3600000 - int M * 60000 - int S * 1000
    \<and> (endDate - startDate \<le> 9007199254740992 \<or> even (endDate - startDate)
        \<longrightarrow> int H = \<lfloor>real_of_int (endDate - startDate) / 3600000\<rfloor>
          \<and> int M = \<lfloor>real_of_int (endDate - startDate - int H * 3600000) / 60000\<rfloor>
          \<and> int S = \<lfloor>real_of_int (endDate - startDate - int H * 3600000 - int M * 60000) / 1000\<rfloor>
          \<and> int ms = endDate - startDate - int H * 3600000 - int M * 60000 - int S * 1000)
    \<and> M \<le> 59
    \<and> S \<le> 59
    \<and> ms \<le> 999
    \<and> set (padStart 2 ''0'' (digits H)) \<subseteq> set ''0123456789''
    \<and> set (padStart 2 ''0'' (digits M)) \<subseteq> set ''0123456789''
    \<and> set (padStart 2 ''0'' (digits S)) \<subseteq> set ''0123456789''
    \<and> set (padStart 3 ''0'' (digits ms)) \<subseteq> set ''0123456789''
    \<and> parse_field (padStart 2 ''0'' (digits H)) = Some H
    \<and> parse_field (padStart 2 ''0'' (digits M)) = Some M
    \<and> parse_field (padStart 2 ''0'' (digits S)) = Some S
    \<and> parse_field (padStart 3 ''0'' (digits ms)) = Some ms
    \<and> (if 360000000 \<le> endDate - startDate then 3 else 2)
          \<le> length (padStart 2 ''0'' (digits H))
    \<and> length (padStart 2 ''0'' (digits M)) = 2
    \<and> length (padStart 2 ''0'' (digits S)) = 2
    \<and> length (padStart 3 ''0'' (digits ms)) = 3"
proof -
  have nn: "0 \<le> number_sub endDate startDate"
    using assms(3) by (simp add: number_sub_nonneg_iff)
  from timeSpan_Number_shape [OF assms(1,2) nn] obtain H M S ms where
    str: "timeSpanToString startDate endDate
        = padStart 2 ''0'' (digits H) @ '':'' @ padStart 2 ''0'' (digits M) @ '':''
          @ padStart 2 ''0'' (digits S) @ ''.'' @ padStart 3 ''0'' (digits ms)"
    and t1: "int H = \<lfloor>real_of_int (number_sub endDate startDate) / 3600000\<rfloor>"
    and t2: "int M = \<lfloor>real_of_int (number_sub endDate startDate - int H * 3600000) / 60000\<rfloor>"
    and t3: "int S = \<lfloor>real_of_int (number_sub endDate startDate - int H * 3600000 - int M * 60000) / 1000\<rfloor>"
    and t4: "int ms = number_sub endDate startDate - int H * 3600000 - int M * 60000 - int S * 1000"
    and rM: "M \<le> 59"
    and rS: "S \<le> 59"
    and rms: "ms \<le> 999"
    and setH: "set (padStart 2 ''0'' (digits H)) \<subseteq> set ''0123456789''"
    and setM: "set (padStart 2 ''0'' (digits M)) \<subseteq> set ''0123456789''"
    and setS: "set (padStart 2 ''0'' (digits S)) \<subseteq> set ''0123456789''"
    and setms: "set (padStart 3 ''0'' (digits ms)) \<subseteq> set ''0123456789''"
    and valH: "parse_field (padStart 2 ''0'' (digits H)) = Some H"
    and valM: "parse_field (padStart 2 ''0'' (digits M)) = Some M"
    and valS: "parse_field (padStart 2 ''0'' (digits S)) = Some S"
    and valms: "parse_field (padStart 3 ''0'' (digits ms)) = Some ms"
    and wH0: "(if 360000000 \<le> number_sub endDate startDate then 3 else 2)
          \<le> length (padStart 2 ''0'' (digits H))"
    and wM: "length (padStart 2 ''0'' (digits M)) = 2"
    and wS: "length (padStart 2 ''0'' (digits S)) = 2"
    and wms: "length (padStart 3 ''0'' (digits ms)) = 3"
    by blast
  have wH: "(if 360000000 \<le> endDate - startDate then 3 else 2)
            \<le> length (padStart 2 ''0'' (digits H))"
  proof (cases "360000000 \<le> endDate - startDate")
    case True
    then have "360000000 \<le> number_sub endDate startDate"
      by (rule number_sub_at_least) simp_all
    then show ?thesis
      using wH0 True by simp
  next
    case False
    then show ?thesis
      using wH0 by (simp split: if_splits)
  qed
  have exact: "(endDate - startDate \<le> 9007199254740992 \<or> even (endDate - startDate)
          \<longrightarrow> int H = \<lfloor>real_of_int (endDate - startDate) / 3600000\<rfloor>
            \<and> int M = \<lfloor>real_of_int (endDate - startDate - int H * 3600000) / 60000\<rfloor>
            \<and> int S = \<lfloor>real_of_int (endDate - startDate - int H * 3600000 - int M * 60000) / 1000\<rfloor>
            \<and> int ms = endDate - startDate - int H * 3600000 - int M * 60000 - int S * 1000)"
  proof
    assume "endDate - startDate \<le> 9007199254740992 \<or> even (endDate - startDate)"
    with assms(3) have n: "number_sub endDate startDate = endDate - startDate"
      by (rule number_sub_double)
    from t1 t2 t3 t4 show "int H = \<lfloor>real_of_int (endDate - startDate) / 3600000\<rfloor>
        \<and> int M = \<lfloor>real_of_int (endDate - startDate - int H * 3600000) / 60000\<rfloor>
        \<and> int S = \<lfloor>real_of_int (endDate - startDate - int H * 3600000 - int M * 60000) / 1000\<rfloor>
        \<and> int ms = endDate - startDate - int H * 3600000 - int M * 60000 - int S * 1000"
      unfolding n by (intro conjI)
  qed
  from str t1 t2 t3 t4 exact rM rS rms setH setM setS setms valH valM valS valms wH wM wS wms
  show ?thesis
    by (intro exI conjI)
qed

theorem timeSpanToString_shape_witness:
  "valid_time (Date_UTC 2000 1 1 10 0) \<and> valid_time (Date_UTC 2000 1 5 19 20)
   \<and> 0 \<le> (Date_UTC 2000 1 5 19 20) - (Date_UTC 2000 1 1 10 0)
   \<and> (Date_UTC 2000 1 5 19 20) - (Date_UTC 2000 1 1 10 0) = 379200000
   \<and> timeSpanToString (Date_UTC 2000 1 1 10 0) (Date_UTC 2000 1 5 19 20) = ''105:20:00.000''
   \<and> (\<exists>H M S ms.
         timeSpanToString (Date_UTC 2000 1 1 10 0) (Date_UTC 2000 1 5 19 20)
           = padStart 2 ''0'' (digits H) @ '':'' @ padStart 2 ''0'' (digits M) @ '':''
             @ padStart 2 ''0'' (digits S) @ ''.'' @ padStart 3 ''0'' (digits ms)
          \<and> int H = \<lfloor>real_of_int (number_sub (Date_UTC 2000 1 5 19 20) (Date_UTC 2000 1 1 10 0)) / 3600000\<rfloor>
          \<and> int M = \<lfloor>real_of_int (number_sub (Date_UTC 2000 1 5 19 20) (Date_UTC 2000 1 1 10 0) - int H * 3600000) / 60000\<rfloor>
          \<and> int S = \<lfloor>real_of_int (number_sub (Date_UTC 2000 1 5 19 20) (Date_UTC 2000 1 1 10 0) - int H * 3600000 - int M * 60000) / 1000\<rfloor>
          \<and> int ms = number_sub (Date_UTC 2000 1 5 19 20) (Date_UTC 2000 1 1 10 0) - int H * 3600000 - int M * 60000 - int S * 1000
          \<and> ((Date_UTC 2000 1 5 19 20) - (Date_UTC 2000 1 1 10 0) \<le> 9007199254740992 \<or> even ((Date_UTC 2000 1 5 19 20) - (Date_UTC 2000 1 1 10 0))
           \<longrightarrow> int H = \<lfloor>real_of_int ((Date_UTC 2000 1 5 19 20) - (Date_UTC 2000 1 1 10 0)) / 3600000\<rfloor>
             \<and> int M = \<lfloor>real_of_int ((Date_UTC 2000 1 5 19 20) - (Date_UTC 2000 1 1 10 0) - int H * 3600000) / 60000\<rfloor>
             \<and> int S = \<lfloor>real_of_int ((Date_UTC 2000 1 5 19 20) - (Date_UTC 2000 1 1 10 0) - int H * 3600000 - int M * 60000) / 1000\<rfloor>
             \<and> int ms = (Date_UTC 2000 1 5 19 20) - (Date_UTC 2000 1 1 10 0) - int H * 3600000 - int M * 60000 - int S * 1000)
          \<and> M \<le> 59
          \<and> S \<le> 59
          \<and> ms \<le> 999
          \<and> set (padStart 2 ''0'' (digits H)) \<subseteq> set ''0123456789''
          \<and> set (padStart 2 ''0'' (digits M)) \<subseteq> set ''0123456789''
          \<and> set (padStart 2 ''0'' (digits S)) \<subseteq> set ''0123456789''
          \<and> set (padStart 3 ''0'' (digits ms)) \<subseteq> set ''0123456789''
          \<and> parse_field (padStart 2 ''0'' (digits H)) = Some H
          \<and> parse_field (padStart 2 ''0'' (digits M)) = Some M
          \<and> parse_field (padStart 2 ''0'' (digits S)) = Some S
          \<and> parse_field (padStart 3 ''0'' (digits ms)) = Some ms
          \<and> (if 360000000 \<le> (Date_UTC 2000 1 5 19 20) - (Date_UTC 2000 1 1 10 0) then 3 else 2)
             \<le> length (padStart 2 ''0'' (digits H))
          \<and> length (padStart 2 ''0'' (digits M)) = 2
          \<and> length (padStart 2 ''0'' (digits S)) = 2
          \<and> length (padStart 3 ''0'' (digits ms)) = 3)"
proof -
  have v1: "valid_time (Date_UTC 2000 1 1 10 0)"
    by code_simp
  have v2: "valid_time (Date_UTC 2000 1 5 19 20)"
    by code_simp
  have n: "(Date_UTC 2000 1 5 19 20) - (Date_UTC 2000 1 1 10 0) = 379200000"
    by code_simp
  have d: "0 \<le> (Date_UTC 2000 1 5 19 20) - (Date_UTC 2000 1 1 10 0)"
    unfolding n by simp
  have r: "timeSpanToString (Date_UTC 2000 1 1 10 0) (Date_UTC 2000 1 5 19 20) = ''105:20:00.000''"
    by code_simp
  from v1 v2 d n r timeSpanToString_shape [OF v1 v2 d] show ?thesis
    by (intro conjI)
qed

section \<open>angleBetweenClockHands\<close>

lemma getHours_range: "0 \<le> getHours tza t \<and> getHours tza t \<le> 23"
  by (simp add: getHours_def HourFromTime_def)

lemma getMinutes_range: "0 \<le> getMinutes tza t \<and> getMinutes tza t \<le> 59"
  by (simp add: getMinutes_def MinFromTime_def)

lemma shift_hours_wrap:
  assumes "0 \<le> h" and "h \<le> 23"
  shows "shift_hours h = (h - 3) mod 24" and "0 \<le> shift_hours h" and "shift_hours h \<le> 23"
  using assms unfolding shift_hours_def by presburger+

lemma remap_hours_table:
  "remap_hours h = (if h \<le> 12 then h else if h \<le> 23 then h - 12 else 0)"
  unfolding remap_hours_def by presburger

lemma remap_hours_range:
  assumes "0 \<le> h"
  shows "0 \<le> remap_hours h \<and> remap_hours h \<le> 12"
  using assms by (simp add: remap_hours_table)

lemma clock_hours_range: "0 \<le> clock_hours tza t \<and> clock_hours tza t \<le> 12"
  unfolding clock_hours_def
  using getHours_range [of tza t]
  by (intro remap_hours_range shift_hours_wrap(2)) simp_all

lemma raw_ugol_range: "0 \<le> raw_ugol tza t \<and> raw_ugol tza t \<le> 360"
proof -
  define h where "h = real_of_int (clock_hours tza t)"
  define m where "m = real_of_int (getMinutes tza t)"
  have h: "0 \<le> h" "h \<le> 12"
    using clock_hours_range [of tza t] by (simp_all add: h_def)
  have m: "0 \<le> m" "m \<le> 59"
    using getMinutes_range [of tza t] by (simp_all add: m_def)
  have "raw_ugol tza t = \<bar>0.5 * (60 * h + m) - 6 * m\<bar>"
    by (simp add: raw_ugol_def Let_def h_def m_def)
  moreover have "0.5 * (60 * h + m) - 6 * m = 30 * h - 11 / 2 * m"
    by (simp add: algebra_simps)
  moreover have "30 * h - 11 / 2 * m \<le> 360" "- 360 \<le> 30 * h - 11 / 2 * m"
    using h m by linarith+
  ultimately show ?thesis
    by (simp add: abs_le_iff)
qed

text \<open>The hour on the clock face and the minute of the four documented calls, on the two
  hosts.\<close>

lemma documented_calls_utc:
  "clock_hours tza_utc (Date_UTC 2016 2 5 0 0) = 9"
  "getMinutes tza_utc (Date_UTC 2016 2 5 0 0) = 0"
  "clock_hours tza_utc (Date_UTC 2016 3 5 3 0) = 0"
  "getMinutes tza_utc (Date_UTC 2016 3 5 3 0) = 0"
  "clock_hours tza_utc (Date_UTC 2016 3 5 18 0) = 3"
  "getMinutes tza_utc (Date_UTC 2016 3 5 18 0) = 0"
  "clock_hours tza_utc (Date_UTC 2016 3 5 21 0) = 6"
  "getMinutes tza_utc (Date_UTC 2016 3 5 21 0) = 0"
  by code_simp+

lemma documented_calls_plus3:
  "clock_hours tza_plus3 (Date_UTC 2016 2 5 0 0) = 0"
  "getMinutes tza_plus3 (Date_UTC 2016 2 5 0 0) = 0"
  "clock_hours tza_plus3 (Date_UTC 2016 3 5 3 0) = 3"
  "getMinutes tza_plus3 (Date_UTC 2016 3 5 3 0) = 0"
  "clock_hours tza_plus3 (Date_UTC 2016 3 5 18 0) = 6"
  "getMinutes tza_plus3 (Date_UTC 2016 3 5 18 0) = 0"
  "clock_hours tza_plus3 (Date_UTC 2016 3 5 21 0) = 9"
  "getMinutes tza_plus3 (Date_UTC 2016 3 5 21 0) = 0"
  by code_simp+

text \<open>
  On a host whose local time is UTC+03:00 the four documented calls return the documented
  angles: the three hours that the code takes off the local hour are that host's offset.
\<close>

lemma angleBetweenClockHands_plus3_host:
  "angleBetweenClockHands tza_plus3 (Date_UTC 2016 2 5 0 0) = 0
   \<and> angleBetweenClockHands tza_plus3 (Date_UTC 2016 3 5 3 0) = pi / 2
   \<and> angleBetweenClockHands tza_plus3 (Date_UTC 2016 3 5 18 0) = pi
   \<and> angleBetweenClockHands tza_plus3 (Date_UTC 2016 3 5 21 0) = pi / 2"
  by (simp add: angleBetweenClockHands_def raw_ugol_def documented_calls_plus3)

text \<open>
  Claim C3. The four documented calls, on time values built by \<open>Date.UTC\<close>, return 0
  for (2016,2,5,0,0), \<open>\<pi>/2\<close> for (2016,3,5,3,0), \<open>\<pi>\<close> for (2016,3,5,18,0) and
  \<open>\<pi>/2\<close> for (2016,3,5,21,0). The code reads the local hour, and on a host whose local
  time is UTC it returns \<open>\<pi>/2\<close>, 0, \<open>\<pi>/2\<close> and \<open>\<pi>\<close>: none of the four
  documented angles.
\<close>

theorem angleBetweenClockHands_utc_host:
  "angleBetweenClockHands tza_utc (Date_UTC 2016 2 5 0 0) = pi / 2
   \<and> angleBetweenClockHands tza_utc (Date_UTC 2016 3 5 3 0) = 0
   \<and> angleBetweenClockHands tza_utc (Date_UTC 2016 3 5 18 0) = pi / 2
   \<and> angleBetweenClockHands tza_utc (Date_UTC 2016 3 5 21 0) = pi
   \<and> pi / 2 \<noteq> 0 \<and> pi / 2 \<noteq> pi"
  by (simp add: angleBetweenClockHands_def raw_ugol_def documented_calls_utc)

text \<open>
  Claim C4. For every input date the function prepares the hour so: the local hour
  component, less a fixed 3 hours; a negative result is wrapped into the range from 0 to
  23 by adding 24; and a result above 12 goes through the fixed table 13 to 1, 14 to 2,
  and so on up to 23 to 11, where any other value of that branch becomes 0. The angle that
  the function returns is the one computed from the hour so prepared.
\<close>

theorem angleBetweenClockHands_hour_preprocessing:
  assumes "valid_time date"
  shows "(let h = ((date + tza date) div 3600000) mod 24;
              s = (if h - 3 < 0 then h - 3 + 24 else h - 3);
              h12 = (if s > 12
                     then (case map_of [(13, 1), (14, 2), (15, 3), (16, 4), (17, 5), (18, 6),
                             (19, 7), (20, 8), (21, 9), (22, 10), (23, 11)] s
                           of Some v \<Rightarrow> v | None \<Rightarrow> 0)
                     else s);
              m = real_of_int (((date + tza date) div 60000) mod 60);
              raw = \<bar>0.5 * (60 * real_of_int h12 + m) - 6 * m\<bar>
          in getHours tza date = h
             \<and> 0 \<le> s \<and> s \<le> 23 \<and> s = (h - 3) mod 24
             \<and> clock_hours tza date = h12
             \<and> raw_ugol tza date = raw
             \<and> angleBetweenClockHands tza date = pi * (if raw > 180 then raw / 3 else raw) / 180)
    \<and> (\<forall>k. remap_hours k =
          (if k > 12
           then (case map_of [(13, 1), (14, 2), (15, 3), (16, 4), (17, 5), (18, 6),
                   (19, 7), (20, 8), (21, 9), (22, 10), (23, 11)] k
                 of Some v \<Rightarrow> v | None \<Rightarrow> 0)
           else k))
    \<and> (\<forall>k. 23 < k \<longrightarrow> remap_hours k = 0)"
proof -
  define h where "h = ((date + tza date) div 3600000) mod 24"
  define s where "s = (if h - 3 < 0 then h - 3 + 24 else h - 3)"
  have tbl: "remap_hours k =
      (if k > 12
       then (case map_of [(13, 1), (14, 2), (15, 3), (16, 4), (17, 5), (18, 6),
               (19, 7), (20, 8), (21, 9), (22, 10), (23, 11)] k
             of Some v \<Rightarrow> v | None \<Rightarrow> 0)
       else k)" for k
    by (simp add: remap_hours_def)
  have gh: "getHours tza date = h"
    by (simp add: getHours_def HourFromTime_def LocalTime_def msPerHour_def h_def)
  have gm: "getMinutes tza date = ((date + tza date) div 60000) mod 60"
    by (simp add: getMinutes_def MinFromTime_def LocalTime_def msPerMinute_def)
  have hr: "0 \<le> h" "h \<le> 23"
    by (simp_all add: h_def)
  have sh: "shift_hours h = s"
    by (simp add: shift_hours_def s_def)
  have sr: "0 \<le> s" "s \<le> 23" "s = (h - 3) mod 24"
    using shift_hours_wrap [OF hr] unfolding sh by simp_all
  have ch: "clock_hours tza date = remap_hours s"
    by (simp add: clock_hours_def gh sh)
  have big: "\<forall>k. 23 < k \<longrightarrow> remap_hours k = 0"
    by (simp add: remap_hours_def)
  show ?thesis
    unfolding Let_def h_def [symmetric] s_def [symmetric] tbl [symmetric]
    using gh sr ch big
    by (simp add: raw_ugol_def angleBetweenClockHands_def Let_def gm)
qed

theorem angleBetweenClockHands_hour_preprocessing_witness:
  "valid_time (Date_UTC 2016 3 5 21 0)
   \<and> getHours tza_plus3 (Date_UTC 2016 3 5 21 0) = 0
   \<and> clock_hours tza_plus3 (Date_UTC 2016 3 5 21 0) = 9
   \<and> angleBetweenClockHands tza_plus3 (Date_UTC 2016 3 5 21 0) = pi / 2
   \<and> valid_time (Date_UTC 2016 3 5 7 30)
   \<and> getHours tza_plus3 (Date_UTC 2016 3 5 7 30) = 10
   \<and> clock_hours tza_plus3 (Date_UTC 2016 3 5 7 30) = 7
   \<and> angleBetweenClockHands tza_plus3 (Date_UTC 2016 3 5 7 30) = pi / 4"
proof -
  have v1: "valid_time (Date_UTC 2016 3 5 21 0)"
    by code_simp
  have v2: "valid_time (Date_UTC 2016 3 5 7 30)"
    by code_simp
  have d1: "Date_UTC 2016 3 5 21 0 = 1459890000000"
    by code_simp
  have d2: "Date_UTC 2016 3 5 7 30 = 1459841400000"
    by code_simp
  have z: "tza_plus3 t = 10800000" for t
    by (simp add: tza_plus3_def msPerHour_def)
  note t1 = angleBetweenClockHands_hour_preprocessing [OF v1, of tza_plus3]
  note t2 = angleBetweenClockHands_hour_preprocessing [OF v2, of tza_plus3]
  have a1: "getHours tza_plus3 (Date_UTC 2016 3 5 21 0) = 0
      \<and> clock_hours tza_plus3 (Date_UTC 2016 3 5 21 0) = 9
      \<and> angleBetweenClockHands tza_plus3 (Date_UTC 2016 3 5 21 0) = pi / 2"
    using t1 unfolding d1 z by (simp add: Let_def)
  have a2: "getHours tza_plus3 (Date_UTC 2016 3 5 7 30) = 10
      \<and> clock_hours tza_plus3 (Date_UTC 2016 3 5 7 30) = 7
      \<and> angleBetweenClockHands tza_plus3 (Date_UTC 2016 3 5 7 30) = pi / 4"
    using t2 unfolding d2 z by (simp add: Let_def)
  from v1 a1 v2 a2 show ?thesis
    by simp
qed

text \<open>
  Claim C5. For every input date the raw angle in degrees is
  \<open>|0.5 * (60 * hour12 + minute) - 6 * minute|\<close>, on the prepared hour and the minute
  component; a raw angle above 180 is divided by 3 (it is not replaced by 360 less the raw
  angle: at 13:00 on a UTC host the raw angle is 300 and the result is 100 degrees, not
  60); and the degrees become radians at the end, by the factor \<open>\<pi>/180\<close>.
\<close>

theorem angleBetweenClockHands_formula:
  assumes "valid_time date"
  shows "raw_ugol tza date
      = \<bar>0.5 * (60 * real_of_int (clock_hours tza date) + real_of_int (getMinutes tza date))
          - 6 * real_of_int (getMinutes tza date)\<bar>
    \<and> angleBetweenClockHands tza date
      = (if raw_ugol tza date > 180 then raw_ugol tza date / 3 else raw_ugol tza date)
        * (pi / 180)
    \<and> raw_ugol tza_utc (Date_UTC 2016 3 5 13 0) = 300
    \<and> angleBetweenClockHands tza_utc (Date_UTC 2016 3 5 13 0) = 100 * (pi / 180)
    \<and> angleBetweenClockHands tza_utc (Date_UTC 2016 3 5 13 0)
        \<noteq> (360 - raw_ugol tza_utc (Date_UTC 2016 3 5 13 0)) * (pi / 180)"
proof -
  have hm: "clock_hours tza_utc (Date_UTC 2016 3 5 13 0) = 10"
      "getMinutes tza_utc (Date_UTC 2016 3 5 13 0) = 0"
    by code_simp+
  have raw: "raw_ugol tza_utc (Date_UTC 2016 3 5 13 0) = 300"
    by (simp add: raw_ugol_def hm)
  have general: "angleBetweenClockHands tza d
      = (if raw_ugol tza d > 180 then raw_ugol tza d / 3 else raw_ugol tza d) * (pi / 180)"
    for tza d
    by (simp add: angleBetweenClockHands_def Let_def)
  have "raw_ugol tza date
      = \<bar>0.5 * (60 * real_of_int (clock_hours tza date) + real_of_int (getMinutes tza date))
          - 6 * real_of_int (getMinutes tza date)\<bar>"
    by (simp add: raw_ugol_def Let_def)
  moreover have "angleBetweenClockHands tza_utc (Date_UTC 2016 3 5 13 0) = 100 * (pi / 180)"
    unfolding general raw by simp
  moreover have "angleBetweenClockHands tza_utc (Date_UTC 2016 3 5 13 0)
        \<noteq> (360 - raw_ugol tza_utc (Date_UTC 2016 3 5 13 0)) * (pi / 180)"
    unfolding general raw by simp
  ultimately show ?thesis
    using general [of tza date] raw by (intro conjI)
qed

theorem angleBetweenClockHands_formula_witness:
  "valid_time (Date_UTC 2016 3 5 15 30)
   \<and> raw_ugol tza_utc (Date_UTC 2016 3 5 15 30) = 195
   \<and> angleBetweenClockHands tza_utc (Date_UTC 2016 3 5 15 30) = 65 * (pi / 180)"
proof -
  have v: "valid_time (Date_UTC 2016 3 5 15 30)"
    by code_simp
  have hm: "clock_hours tza_utc (Date_UTC 2016 3 5 15 30) = 12"
      "getMinutes tza_utc (Date_UTC 2016 3 5 15 30) = 30"
    by code_simp+
  note t = angleBetweenClockHands_formula [OF v, of tza_utc]
  have raw: "raw_ugol tza_utc (Date_UTC 2016 3 5 15 30) = 195"
    using t hm by simp
  have "angleBetweenClockHands tza_utc (Date_UTC 2016 3 5 15 30) = 65 * (pi / 180)"
    using t raw by simp
  with v raw show ?thesis
    by (intro conjI)
qed

text \<open>
  Claim C10. For every input date the result lies in the closed interval from 0 to
  \<open>\<pi>\<close>: the raw angle is at most 360 degrees, an angle above 180 leaves the division
  by 3 at no more than 120 degrees, and the result is never negative.
\<close>

theorem angleBetweenClockHands_range:
  assumes "valid_time date"
  shows "0 \<le> raw_ugol tza date \<and> raw_ugol tza date \<le> 360
    \<and> (if raw_ugol tza date > 180 then raw_ugol tza date / 3 else raw_ugol tza date)
        \<le> (if raw_ugol tza date > 180 then 120 else 180)
    \<and> 0 \<le> angleBetweenClockHands tza date \<and> angleBetweenClockHands tza date \<le> pi"
proof -
  define r where "r = raw_ugol tza date"
  have r: "0 \<le> r" "r \<le> 360"
    using raw_ugol_range [of tza date] by (simp_all add: r_def)
  define g where "g = (if r > 180 then r / 3 else r)"
  have g: "0 \<le> g" "g \<le> (if r > 180 then 120 else 180)" "g \<le> 180"
    using r by (simp_all add: g_def)
  have a: "angleBetweenClockHands tza date = pi * g / 180"
    by (simp add: angleBetweenClockHands_def Let_def r_def g_def)
  have lo: "0 \<le> pi * g / 180"
    using g(1) by simp
  have "pi * g \<le> pi * 180"
    using g(3) by (intro mult_left_mono) simp_all
  then have hi: "pi * g / 180 \<le> pi"
    by simp
  show ?thesis
    unfolding a r_def [symmetric] using r g(2) lo hi by (simp add: g_def)
qed

theorem angleBetweenClockHands_range_witness:
  "valid_time (Date_UTC 2016 3 5 15 0)
   \<and> raw_ugol tza_utc (Date_UTC 2016 3 5 15 0) = 360
   \<and> 0 \<le> angleBetweenClockHands tza_utc (Date_UTC 2016 3 5 15 0)
   \<and> angleBetweenClockHands tza_utc (Date_UTC 2016 3 5 15 0) \<le> pi"
proof -
  have v: "valid_time (Date_UTC 2016 3 5 15 0)"
    by code_simp
  have hm: "clock_hours tza_utc (Date_UTC 2016 3 5 15 0) = 12"
      "getMinutes tza_utc (Date_UTC 2016 3 5 15 0) = 0"
    by code_simp+
  have raw: "raw_ugol tza_utc (Date_UTC 2016 3 5 15 0) = 360"
    by (simp add: raw_ugol_def hm)
  from angleBetweenClockHands_range [OF v, of tza_utc]
  have "0 \<le> angleBetweenClockHands tza_utc (Date_UTC 2016 3 5 15 0)
      \<and> angleBetweenClockHands tza_utc (Date_UTC 2016 3 5 15 0) \<le> pi"
    by simp
  with v raw show ?thesis
    by simp
qed

end
